theory Spec2Isabelle
  imports Main "HOL-Library.Sublist" "HOL-Library.Multiset"
begin

section \<open>The storage accessor of the file-based blog (src/utils/fileHandler.js)\<close>

text \<open>
  The module keeps every post as one JSON file in the directory \<^verbatim>\<open>POSTS_DIR\<close>. Its
  functions are \<^verbatim>\<open>async\<close>: a rejected promise is modelled as the \<open>Inl\<close> of a sum, a
  fulfilled one as \<open>Inr\<close>. The file system, the clock (\<^verbatim>\<open>new Date()\<close>) and the random
  identifiers (\<^verbatim>\<open>uuidv4()\<close>) are the environment: the directory is passed in and
  returned, clock readings and identifiers are arguments, in the order the code
  reads them. \<^verbatim>\<open>console.error\<close> has no effect on any result and is left out.
\<close>

subsection \<open>Strings of the runtime\<close>

text \<open>
  A \<open>char\<close> stands for one UTF-16 code unit of a string: below 128 it is the ASCII
  character of that number; from 128 on it is the character of the Greek and Coptic
  block that lies \<open>0x300\<close> higher, so that \<open>0x80\<close> to \<open>0xFF\<close> are U+0380 to U+03FF
  (\<open>0x9F\<close> is the capital omicron U+039F, \<open>0xA3\<close> the capital sigma U+03A3, \<open>0xC3\<close> the
  small sigma U+03C3 and \<open>0xC2\<close> the final sigma U+03C2). Text with other characters
  is outside the model. \<^verbatim>\<open>String.prototype.trim\<close> removes white space and line
  terminators at both ends; among the characters modelled these are the space and the
  characters 9 to 13.
\<close>

definition isSpace :: "char \<Rightarrow> bool" where
  "isSpace c = (c \<in> set [CHR '' '', CHR 0x09, CHR 0x0A, CHR 0x0B, CHR 0x0C, CHR 0x0D])"

definition trim :: "string \<Rightarrow> string" where
  "trim s = rev (dropWhile isSpace (rev (dropWhile isSpace s)))"

text \<open>
  \<^verbatim>\<open>String.prototype.toLowerCase\<close> is the default case conversion of Unicode: every
  capital letter is replaced by its small letter. \<open>caseTable\<close> holds the pairs for the
  letters A to Z and for the Greek alphabet: the seven capitals with tonos, alpha to
  rho, sigma to omega, and iota and upsilon with dialytika. The archaic letters and
  symbols from U+03CF on are left as they are, which the runtime does not do for all
  of them: they are not modelled.
\<close>

definition caseTable :: "(char \<times> char) list" where
  "caseTable =
     zip (''ABCDEFGHIJKLMNOPQRSTUVWXYZ''
          @ [CHR 0x86, CHR 0x88, CHR 0x89, CHR 0x8A, CHR 0x8C, CHR 0x8E, CHR 0x8F,
             CHR 0x91, CHR 0x92, CHR 0x93, CHR 0x94, CHR 0x95, CHR 0x96, CHR 0x97, CHR 0x98,
             CHR 0x99, CHR 0x9A, CHR 0x9B, CHR 0x9C, CHR 0x9D, CHR 0x9E, CHR 0x9F, CHR 0xA0,
             CHR 0xA1, CHR 0xA3, CHR 0xA4, CHR 0xA5, CHR 0xA6, CHR 0xA7, CHR 0xA8, CHR 0xA9,
             CHR 0xAA, CHR 0xAB])
         (''abcdefghijklmnopqrstuvwxyz''
          @ [CHR 0xAC, CHR 0xAD, CHR 0xAE, CHR 0xAF, CHR 0xCC, CHR 0xCD, CHR 0xCE,
             CHR 0xB1, CHR 0xB2, CHR 0xB3, CHR 0xB4, CHR 0xB5, CHR 0xB6, CHR 0xB7, CHR 0xB8,
             CHR 0xB9, CHR 0xBA, CHR 0xBB, CHR 0xBC, CHR 0xBD, CHR 0xBE, CHR 0xBF, CHR 0xC0,
             CHR 0xC1, CHR 0xC3, CHR 0xC4, CHR 0xC5, CHR 0xC6, CHR 0xC7, CHR 0xC8, CHR 0xC9,
             CHR 0xCA, CHR 0xCB])"

definition toLowerChar :: "char \<Rightarrow> char" where
  "toLowerChar c = (case map_of caseTable c of Some l \<Rightarrow> l | None \<Rightarrow> c)"

text \<open>
  The one mapping that looks at the neighbours is that of the capital sigma (the
  condition Final_Sigma of Unicode's special casing): it becomes the final sigma
  instead of the small sigma when a cased letter stands before it, with nothing but
  case-ignorable characters in between, and no cased letter follows it in the same
  way. Cased are the letters of both blocks; the case-ignorable characters modelled
  are the apostrophe, the full stop, the circumflex and the grave accent of ASCII and
  the tonos, the dialytika tonos and the ano teleia of the Greek block.
\<close>

definition cased :: "char \<Rightarrow> bool" where
  "cased c =
     (let n = of_char c :: nat
      in (0x41 \<le> n \<and> n \<le> 0x5A) \<or> (0x61 \<le> n \<and> n \<le> 0x7A)
         \<or> n = 0x86 \<or> (0x88 \<le> n \<and> n \<le> 0x8A) \<or> n = 0x8C
         \<or> (0x8E \<le> n \<and> n \<le> 0xA1) \<or> (0xA3 \<le> n \<and> n \<le> 0xF5) \<or> 0xF7 \<le> n)"

definition caseIgnorable :: "char \<Rightarrow> bool" where
  "caseIgnorable c =
     (c \<in> set [CHR 0x27, CHR 0x2E, CHR 0x5E, CHR 0x60, CHR 0x84, CHR 0x85, CHR 0x87])"

definition casedFollows :: "string \<Rightarrow> bool" where
  "casedFollows cs = (case dropWhile caseIgnorable cs of [] \<Rightarrow> False | d # _ \<Rightarrow> cased d)"

fun lowerFrom :: "bool \<Rightarrow> string \<Rightarrow> string" where
  "lowerFrom afterCased [] = []"
| "lowerFrom afterCased (c # cs) =
     (if c = CHR 0xA3 \<and> afterCased \<and> \<not> casedFollows cs then CHR 0xC2 else toLowerChar c)
       # lowerFrom (if caseIgnorable c then afterCased else cased c) cs"

definition toLowerCase :: "string \<Rightarrow> string" where
  "toLowerCase s = lowerFrom False s"


definition endsWith :: "string \<Rightarrow> string \<Rightarrow> bool" where
  "endsWith s suf = prefix (rev suf) (rev s)"

text \<open>\<^verbatim>\<open>s.replace(pat, rep)\<close> with a string pattern replaces the first occurrence only.\<close>

fun replace :: "string \<Rightarrow> string \<Rightarrow> string \<Rightarrow> string" where
  "replace pat rep [] = (if pat = [] then rep else [])"
| "replace pat rep (c # cs) =
     (if prefix pat (c # cs) then rep @ drop (length pat) (c # cs)
      else c # replace pat rep cs)"

text \<open>\<^verbatim>\<open>s.split(sep)\<close> for a one-character separator: the pieces between separators,
  empty pieces included; the result is never empty.\<close>

fun js_split :: "char \<Rightarrow> string \<Rightarrow> string list" where
  "js_split sep [] = [[]]"
| "js_split sep (c # cs) =
     (if c = sep then [] # js_split sep cs
      else (case js_split sep cs of
              [] \<Rightarrow> [[c]]
            | p # ps \<Rightarrow> (c # p) # ps))"

text \<open>
  A form field or property that is \<^verbatim>\<open>undefined\<close> or \<^verbatim>\<open>null\<close> is \<open>None\<close>. The
  conditions \<^verbatim>\<open>x ? f(x) : dflt\<close> of the module test truthiness: an absent value and
  the empty string are falsy, every other string is truthy.
\<close>

definition ifTruthy :: "string option \<Rightarrow> (string \<Rightarrow> 'a) \<Rightarrow> 'a \<Rightarrow> 'a" where
  "ifTruthy v f dflt = (case v of None \<Rightarrow> dflt | Some s \<Rightarrow> if s = [] then dflt else f s)"

subsection \<open>Libraries: slugify and uuid\<close>

text \<open>
  \<^verbatim>\<open>slugify(title, { lower: true, strict: true })\<close> of the npm package slugify, on
  ASCII input and with the default replacement \<open>-\<close>: every character is mapped
  through the package's character map (\<open>$ % & < > |\<close> become words), the replacement
  character itself becomes a space, strict mode then keeps letters, digits and white
  space only; the result is trimmed, every run of white space becomes one \<open>-\<close>, and
  the whole is lower-cased.
\<close>

definition isAlnum :: "char \<Rightarrow> bool" where
  "isAlnum c =
     (c \<in> set ''ABCDEFGHIJKLMNOPQRSTUVWXYZabcdefghijklmnopqrstuvwxyz0123456789'')"

definition charMap :: "char \<Rightarrow> string" where
  "charMap c =
     (case map_of [(CHR ''$'', ''dollar''), (CHR ''%'', ''percent''), (CHR ''&'', ''and''),
                   (CHR ''<'', ''less''), (CHR ''>'', ''greater''), (CHR ''|'', ''or'')] c of
        Some w \<Rightarrow> w
      | None \<Rightarrow> if c = CHR ''-'' then '' '' else [c])"

text \<open>\<^verbatim>\<open>slug.replace(/\s+/g, '-')\<close>: the last character of a run of white space becomes
  the hyphen, the ones before it disappear.\<close>

fun collapseSpaces :: "string \<Rightarrow> string" where
  "collapseSpaces [] = []"
| "collapseSpaces [c] = (if isSpace c then ''-'' else [c])"
| "collapseSpaces (c # d # cs) =
     (if isSpace c then (if isSpace d then collapseSpaces (d # cs)
                         else CHR ''-'' # collapseSpaces (d # cs))
      else c # collapseSpaces (d # cs))"

definition slugify :: "string \<Rightarrow> string" where
  "slugify s =
     toLowerCase (collapseSpaces (trim
       (filter (\<lambda>c. isAlnum c \<or> isSpace c) (concat (map charMap s)))))"

text \<open>
  \<^verbatim>\<open>uuidv4()\<close> returns 36 characters, hexadecimal digits and hyphens. The values it
  returns are arguments of the model; \<open>is_uuid\<close> is what the library guarantees of them.
\<close>

definition is_uuid :: "string \<Rightarrow> bool" where
  "is_uuid u = (length u = 36 \<and> list_all (\<lambda>c. c \<in> set ''0123456789abcdef-'') u)"

subsection \<open>Posts\<close>

text \<open>
  \<open>stored_post\<close> is the object a post file holds; \<open>post\<close> is the object handed to
  callers, with the \<^verbatim>\<open>filename\<close> property the module attaches after reading or
  writing. A timestamp is the instant (milliseconds since the epoch) whose ISO text
  \<^verbatim>\<open>toISOString()\<close> writes and \<^verbatim>\<open>new Date(text)\<close> reads back.
\<close>

record stored_post =
  post_id :: string
  title :: string
  content :: string
  author :: string
  tags :: "string list"
  createdAt :: int
  updatedAt :: int

record post = stored_post +
  filename :: string

text \<open>The argument \<^verbatim>\<open>postData\<close> of \<^verbatim>\<open>createPost\<close> and \<^verbatim>\<open>updatePost\<close>.\<close>

record postData =
  pd_title :: "string option"
  pd_content :: "string option"
  pd_author :: "string option"
  pd_tags :: "string option"

subsection \<open>The posts directory\<close>

text \<open>
  A file's text is either rejected by \<^verbatim>\<open>JSON.parse\<close> (\<open>Malformed\<close>) or is the JSON of
  a post object, represented by that object: \<^verbatim>\<open>JSON.parse(JSON.stringify(p))\<close> gives
  \<open>p\<close> back for an object of strings and string arrays. An entry of the directory is
  a subdirectory (\<open>Subdir\<close>), a file the process may not read (\<open>Unreadable\<close>) or a
  file with its text. The directory lists its entries in the order \<^verbatim>\<open>readdir\<close> reports
  them; \<open>NoDir\<close> is a missing or unreadable directory. Reads and writes are given the
  name of an entry: the handles they are called with are plain names, for which
  \<^verbatim>\<open>path.join(POSTS_DIR, name)\<close> is the entry \<open>name\<close> of \<^verbatim>\<open>POSTS_DIR\<close>.
\<close>

datatype contents = Malformed | Json stored_post

datatype entry = Subdir | Unreadable | Readable contents

datatype fs = NoDir | Dir "(string \<times> entry) list"

datatype error = TypeError | SyntaxError | IOError

definition readdir :: "fs \<Rightarrow> error + string list" where
  "readdir d = (case d of NoDir \<Rightarrow> Inl IOError | Dir es \<Rightarrow> Inr (map fst es))"

definition readFile :: "fs \<Rightarrow> string \<Rightarrow> error + contents" where
  "readFile d name =
     (case d of
        NoDir \<Rightarrow> Inl IOError
      | Dir es \<Rightarrow>
          (case map_of es name of
             None \<Rightarrow> Inl IOError
           | Some Subdir \<Rightarrow> Inl IOError
           | Some Unreadable \<Rightarrow> Inl IOError
           | Some (Readable c) \<Rightarrow> Inr c))"

text \<open>Writing replaces an entry of that name where it stands, or adds a new entry.\<close>

fun put :: "string \<Rightarrow> entry \<Rightarrow> (string \<times> entry) list \<Rightarrow> (string \<times> entry) list" where
  "put name f [] = [(name, f)]"
| "put name f ((n, g) # es) = (if n = name then (name, f) # es else (n, g) # put name f es)"

definition writeFile :: "fs \<Rightarrow> string \<Rightarrow> contents \<Rightarrow> error + fs" where
  "writeFile d name c =
     (case d of
        NoDir \<Rightarrow> Inl IOError
      | Dir es \<Rightarrow> Inr (Dir (put name (Readable c) es)))"






definition JSON_parse :: "contents \<Rightarrow> error + stored_post" where
  "JSON_parse c = (case c of Malformed \<Rightarrow> Inl SyntaxError | Json p \<Rightarrow> Inr p)"

definition JSON_stringify :: "stored_post \<Rightarrow> contents" where
  "JSON_stringify p = Json p"

text \<open>\<^verbatim>\<open>post.filename = name\<close>: the object read from a file gets its handle.\<close>

definition withFilename :: "stored_post \<Rightarrow> string \<Rightarrow> post" where
  "withFilename p name = stored_post.extend p \<lparr>filename = name\<rparr>"

subsection \<open>Array.prototype.sort and Promise.all\<close>

text \<open>
  \<^verbatim>\<open>xs.sort(cmp)\<close> is a stable sort: \<open>a\<close> is placed before \<open>b\<close> when \<open>cmp a b < 0\<close>,
  and elements that compare equal keep their order.
\<close>

fun insert_cmp :: "('a \<Rightarrow> 'a \<Rightarrow> int) \<Rightarrow> 'a \<Rightarrow> 'a list \<Rightarrow> 'a list" where
  "insert_cmp cmp x [] = [x]"
| "insert_cmp cmp x (y # ys) =
     (if cmp x y \<le> 0 then x # y # ys else y # insert_cmp cmp x ys)"

fun sort_cmp :: "('a \<Rightarrow> 'a \<Rightarrow> int) \<Rightarrow> 'a list \<Rightarrow> 'a list" where
  "sort_cmp cmp [] = []"
| "sort_cmp cmp (x # xs) = insert_cmp cmp x (sort_cmp cmp xs)"

text \<open>\<^verbatim>\<open>Promise.all\<close> rejects as soon as one promise rejects, else gives all values.\<close>

fun promise_all :: "(error + 'a) list \<Rightarrow> error + 'a list" where
  "promise_all [] = Inr []"
| "promise_all (Inl e # rs) = Inl e"
| "promise_all (Inr v # rs) =
     (case promise_all rs of Inl e \<Rightarrow> Inl e | Inr vs \<Rightarrow> Inr (v # vs))"

subsection \<open>The functions of fileHandler.js\<close>

definition generateFilename :: "string \<Rightarrow> string \<Rightarrow> string" where
  "generateFilename uuid title_arg =
     (let slug = slugify title_arg;
          uniqueId = take 8 uuid
      in slug @ ''-'' @ uniqueId @ ''.json'')"

text \<open>The callback of \<^verbatim>\<open>jsonFiles.map\<close> in \<^verbatim>\<open>getAllPosts\<close>: read, parse, attach the handle.\<close>

definition loadPost :: "fs \<Rightarrow> string \<Rightarrow> error + post" where
  "loadPost d file_name =
     (case readFile d file_name of
        Inl e \<Rightarrow> Inl e
      | Inr text_read \<Rightarrow>
          (case JSON_parse text_read of
             Inl e \<Rightarrow> Inl e
           | Inr p \<Rightarrow> Inr (withFilename p (replace ''.json'' '''' file_name))))"

definition byDate :: "post \<Rightarrow> post \<Rightarrow> int" where
  "byDate a b = createdAt b - createdAt a"

definition getAllPosts :: "fs \<Rightarrow> post list" where
  "getAllPosts d =
     (case readdir d of
        Inl e \<Rightarrow> []
      | Inr files \<Rightarrow>
          (let jsonFiles = filter (\<lambda>f. endsWith f ''.json'') files in
           case promise_all (map (loadPost d) jsonFiles) of
             Inl e \<Rightarrow> []
           | Inr posts \<Rightarrow> sort_cmp byDate posts))"

definition getPostByFilename :: "fs \<Rightarrow> string \<Rightarrow> post option" where
  "getPostByFilename d name =
     (case readFile d (name @ ''.json'') of
        Inl e \<Rightarrow> None
      | Inr text_read \<Rightarrow>
          (case JSON_parse text_read of
             Inl e \<Rightarrow> None
           | Inr p \<Rightarrow> Some (withFilename p name)))"

text \<open>\<^verbatim>\<open>tags.split(',').map(tag => tag.trim()).filter(tag => tag)\<close>, written out in
  both \<^verbatim>\<open>createPost\<close> and \<^verbatim>\<open>updatePost\<close>.\<close>

definition splitTags :: "string \<Rightarrow> string list" where
  "splitTags s = filter (\<lambda>t. t \<noteq> []) (map trim (js_split CHR '','' s))"

text \<open>
  The environment \<^verbatim>\<open>createPost\<close> reads, in the order of its calls: \<^verbatim>\<open>uuidv4()\<close> for
  the id, \<^verbatim>\<open>new Date()\<close> for \<^verbatim>\<open>createdAt\<close>, \<^verbatim>\<open>new Date()\<close> for \<^verbatim>\<open>updatedAt\<close>, and
  \<^verbatim>\<open>uuidv4()\<close> for the file name.
\<close>

record create_env =
  id_uuid :: string
  created_now :: int
  updated_now :: int
  file_uuid :: string

text \<open>The object literal \<^verbatim>\<open>post\<close> of \<^verbatim>\<open>createPost\<close>, for a title and a content that are
  strings.\<close>

definition newPost :: "create_env \<Rightarrow> string \<Rightarrow> string \<Rightarrow> postData \<Rightarrow> stored_post" where
  "newPost env title_arg content_arg postData =
     \<lparr>post_id = id_uuid env,
      title = trim title_arg,
      content = trim content_arg,
      author = ifTruthy (pd_author postData) trim ''Anonymous'',
      tags = ifTruthy (pd_tags postData) splitTags [],
      createdAt = created_now env,
      updatedAt = updated_now env\<rparr>"

text \<open>\<^verbatim>\<open>title.trim()\<close> and \<^verbatim>\<open>content.trim()\<close> on an absent value throw a TypeError; a
  failed write rejects. Neither is caught in \<^verbatim>\<open>createPost\<close>.\<close>

definition createPost :: "create_env \<Rightarrow> fs \<Rightarrow> postData \<Rightarrow> error + (post \<times> fs)" where
  "createPost env d postData =
     (case pd_title postData of
        None \<Rightarrow> Inl TypeError
      | Some title_arg \<Rightarrow>
          (case pd_content postData of
             None \<Rightarrow> Inl TypeError
           | Some content_arg \<Rightarrow>
               (let p = newPost env title_arg content_arg postData;
                    file_name = generateFilename (file_uuid env) title_arg
                in case writeFile d file_name (JSON_stringify p) of
                     Inl e \<Rightarrow> Inl e
                   | Inr d' \<Rightarrow> Inr (withFilename p (replace ''.json'' '''' file_name), d'))))"

text \<open>The object literal \<^verbatim>\<open>updatedPost\<close> of \<^verbatim>\<open>updatePost\<close>: the spread of the existing
  object, then the five properties the function sets.\<close>

definition mergedPost :: "int \<Rightarrow> stored_post \<Rightarrow> postData \<Rightarrow> stored_post" where
  "mergedPost now existingPost postData =
     existingPost
       \<lparr>title := ifTruthy (pd_title postData) trim (title existingPost),
        content := ifTruthy (pd_content postData) trim (content existingPost),
        author := ifTruthy (pd_author postData) trim (author existingPost),
        tags := ifTruthy (pd_tags postData) splitTags (tags existingPost),
        updatedAt := now\<rparr>"

text \<open>Every failure inside \<^verbatim>\<open>updatePost\<close> is caught and answered with \<^verbatim>\<open>null\<close>.\<close>

definition updatePost :: "int \<Rightarrow> fs \<Rightarrow> string \<Rightarrow> postData \<Rightarrow> post option \<times> fs" where
  "updatePost now d name postData =
     (case readFile d (name @ ''.json'') of
        Inl e \<Rightarrow> (None, d)
      | Inr existingContent \<Rightarrow>
          (case JSON_parse existingContent of
             Inl e \<Rightarrow> (None, d)
           | Inr existingPost \<Rightarrow>
               (let updatedPost = mergedPost now existingPost postData
                in case writeFile d (name @ ''.json'') (JSON_stringify updatedPost) of
                     Inl e \<Rightarrow> (None, d)
                   | Inr d' \<Rightarrow> (Some (withFilename updatedPost name), d'))))"




subsection \<open>Reading the directory's contents\<close>

text \<open>
  The names \<^verbatim>\<open>getAllPosts\<close> keeps of a listing, and the post object a name's file
  parses to: \<open>None\<close> when the file is missing, cannot be read or is not JSON.
\<close>

definition jsonFiles :: "(string \<times> entry) list \<Rightarrow> string list" where
  "jsonFiles es = filter (\<lambda>f. endsWith f ''.json'') (map fst es)"

definition parsed :: "(string \<times> entry) list \<Rightarrow> string \<Rightarrow> stored_post option" where
  "parsed es f = (case map_of es f of Some (Readable (Json s)) \<Rightarrow> Some s | _ \<Rightarrow> None)"

subsection \<open>Example directories\<close>

definition post_a :: stored_post where
  "post_a = \<lparr>post_id = ''11111111-aaaa-4aaa-8aaa-aaaaaaaaaaaa'', title = ''Hello World'',
     content = ''first entry'', author = ''Ann'', tags = [''intro''],
     createdAt = 1000, updatedAt = 1000\<rparr>"

definition post_b :: stored_post where
  "post_b = \<lparr>post_id = ''22222222-bbbb-4bbb-8bbb-bbbbbbbbbbbb'', title = ''Notes'',
     content = ''I say hello'', author = ''Bob'', tags = [''misc''],
     createdAt = 3000, updatedAt = 3500\<rparr>"

definition post_c :: stored_post where
  "post_c = \<lparr>post_id = ''33333333-cccc-4ccc-8ccc-cccccccccccc'', title = ''Tips'',
     content = ''short'', author = ''Anonymous'', tags = [''Hello'', ''go''],
     createdAt = 2000, updatedAt = 2000\<rparr>"

definition post_d :: stored_post where
  "post_d = \<lparr>post_id = ''44444444-dddd-4ddd-8ddd-dddddddddddd'', title = ''Other'',
     content = ''nothing'', author = ''Dan'', tags = [''golang''],
     createdAt = 4000, updatedAt = 4000\<rparr>"

text \<open>Four posts and a subdirectory.\<close>

definition es_blog :: "(string \<times> entry) list" where
  "es_blog = [(''hello-world-0a1b2c3d.json'', Readable (Json post_a)),
              (''notes-1b2c3d4e.json'', Readable (Json post_b)),
              (''tips-2c3d4e5f.json'', Readable (Json post_c)),
              (''other-3d4e5f6a.json'', Readable (Json post_d)),
              (''drafts'', Subdir)]"

text \<open>One post and one file that is not JSON.\<close>

definition es_partial :: "(string \<times> entry) list" where
  "es_partial = [(''hello-world-0a1b2c3d.json'', Readable (Json post_a)),
                 (''broken.json'', Readable Malformed)]"

subsection \<open>Matching without regard to case, as the specification words it\<close>

text \<open>
  Two characters are the same letter up to case when they are equal, or one is a
  capital (A to Z; alpha to omega and the two capitals with dialytika) and the other
  is its small letter, which lies 32 code points higher in both alphabets. Two strings
  are equal ignoring case when they have the same length and agree, letter by letter,
  up to case. A query occurs in a text as a case-insensitive substring when some
  window of the text, as long as the query, equals the query ignoring case.
\<close>

definition isCapital :: "char \<Rightarrow> bool" where
  "isCapital c =
     (let n = of_char c :: nat
      in (0x41 \<le> n \<and> n \<le> 0x5A) \<or> (0x91 \<le> n \<and> n \<le> 0xAB \<and> n \<noteq> 0xA2))"

definition same_letter :: "char \<Rightarrow> char \<Rightarrow> bool" where
  "same_letter x y =
     (x = y \<or> (isCapital x \<and> of_char y = of_char x + (32::nat))
            \<or> (isCapital y \<and> of_char x = of_char y + (32::nat)))"

definition eq_ci :: "string \<Rightarrow> string \<Rightarrow> bool" where
  "eq_ci a b = list_all2 same_letter a b"

definition occurs_ci :: "string \<Rightarrow> string \<Rightarrow> bool" where
  "occurs_ci q s = list_ex (\<lambda>i. eq_ci (take (length q) (drop i s)) q) [0..<Suc (length s)]"



subsection \<open>Example inputs\<close>










text \<open>The creation scenario of the specification: a title, a content, no author, no tags.\<close>

definition pd_first :: postData where
  "pd_first = \<lparr>pd_title = Some ''My First Post'', pd_content = Some ''Hello there'',
     pd_author = None, pd_tags = None\<rparr>"

definition env_first :: create_env where
  "env_first = \<lparr>id_uuid = ''9b1deb4d-3b7d-4bad-9bdd-2b0d7b3dcb6d'', created_now = 5000,
     updated_now = 5001, file_uuid = ''1c9e6679-7425-40de-944b-e07fc1f90ae7''\<rparr>"

text \<open>An update that pads the title with blanks, sends an empty content and leaves
  author and tags out.\<close>

definition pd_retitle :: postData where
  "pd_retitle = \<lparr>pd_title = Some ''  Notes v2  '', pd_content = Some '''',
     pd_author = None, pd_tags = None\<rparr>"

text \<open>An update whose tags field holds a comma and nothing else.\<close>

definition pd_comma :: postData where
  "pd_comma = \<lparr>pd_title = None, pd_content = None, pd_author = None, pd_tags = Some '',''\<rparr>"

text \<open>An update with every field empty.\<close>

definition pd_empty :: postData where
  "pd_empty = \<lparr>pd_title = Some '''', pd_content = Some '''', pd_author = Some '''',
     pd_tags = Some ''''\<rparr>"

text \<open>Three posts created one after the other in an empty directory, at the instants
  1000, 2000 and 3000.\<close>

definition env_t1 :: create_env where
  "env_t1 = \<lparr>id_uuid = ''aaaaaaaa-0000-4000-8000-000000000001'', created_now = 1000,
     updated_now = 1000, file_uuid = ''0a0a0a0a-0000-4000-8000-000000000001''\<rparr>"

definition env_t2 :: create_env where
  "env_t2 = \<lparr>id_uuid = ''bbbbbbbb-0000-4000-8000-000000000002'', created_now = 2000,
     updated_now = 2000, file_uuid = ''0b0b0b0b-0000-4000-8000-000000000002''\<rparr>"

definition env_t3 :: create_env where
  "env_t3 = \<lparr>id_uuid = ''cccccccc-0000-4000-8000-000000000003'', created_now = 3000,
     updated_now = 3001, file_uuid = ''0c0c0c0c-0000-4000-8000-000000000003''\<rparr>"

definition pd_second :: postData where
  "pd_second = \<lparr>pd_title = Some ''Second'', pd_content = Some ''More text'',
     pd_author = Some ''Ann'', pd_tags = Some ''news, go''\<rparr>"

definition step1 :: "post \<times> fs" where
  "step1 = projr (createPost env_t1 (Dir []) pd_first)"

definition step2 :: "post \<times> fs" where
  "step2 = projr (createPost env_t2 (snd step1) pd_second)"

definition step3 :: "post \<times> fs" where
  "step3 = projr (createPost env_t3 (snd step2) pd_first)"

section \<open>Properties\<close>

subsection \<open>The directory operations\<close>

lemma map_of_put_same: "map_of (put name f es) name = Some f"
  by (induction es) auto

lemma map_of_put_other: "other \<noteq> name \<Longrightarrow> map_of (put name f es) other = map_of es other"
  by (induction es) auto

lemma map_of_remove_same: "map_of (filter (\<lambda>e. fst e \<noteq> name) es) name = None"
  by (induction es) auto

lemma map_of_remove_other:
  "other \<noteq> name \<Longrightarrow> map_of (filter (\<lambda>e. fst e \<noteq> name) es) other = map_of es other"
  by (induction es) auto

subsection \<open>Promise.all\<close>

lemma promise_all_rejects: "(\<exists>e. promise_all rs = Inl e) \<longleftrightarrow> (\<exists>r \<in> set rs. isl r)"
proof (induction rs)
  case Nil
  show ?case by simp
next
  case (Cons r rs)
  show ?case
  proof (cases r)
    case (Inl e)
    then show ?thesis by simp
  next
    case (Inr v)
    with Cons show ?thesis by (auto split: sum.splits)
  qed
qed

lemma promise_all_fulfils:
  "\<forall>r \<in> set rs. \<not> isl r \<Longrightarrow> promise_all rs = Inr (map projr rs)"
proof (induction rs)
  case Nil
  show ?case by simp
next
  case (Cons r rs)
  then obtain v where "r = Inr v" by (cases r) auto
  with Cons show ?case by simp
qed

subsection \<open>getAllPosts\<close>

lemma loadPost_isl: "isl (loadPost (Dir es) f) \<longleftrightarrow> parsed es f = None"
  by (simp add: loadPost_def readFile_def JSON_parse_def parsed_def
      split: option.splits entry.splits contents.splits)

lemma loadPost_projr:
  "parsed es f = Some s \<Longrightarrow> loadPost (Dir es) f = Inr (withFilename s (replace ''.json'' '''' f))"
  by (simp add: loadPost_def readFile_def JSON_parse_def parsed_def
      split: option.splits entry.splits contents.splits)

lemma getAllPosts_Dir:
  "getAllPosts (Dir es) =
     (case promise_all (map (loadPost (Dir es)) (jsonFiles es)) of
        Inl e \<Rightarrow> []
      | Inr posts \<Rightarrow> sort_cmp byDate posts)"
  by (simp add: getAllPosts_def readdir_def jsonFiles_def)

subsection \<open>The sort of the listing\<close>

lemma set_insert_cmp: "set (insert_cmp cmp x xs) = insert x (set xs)"
  by (induction xs) auto

lemma mset_insert_cmp: "mset (insert_cmp cmp x xs) = add_mset x (mset xs)"
  by (induction xs) auto

lemma mset_sort_cmp: "mset (sort_cmp cmp xs) = mset xs"
  by (induction xs) (simp_all add: mset_insert_cmp)

lemma newest_first_insert:
  "sorted_wrt (\<lambda>a b. createdAt b \<le> createdAt a) xs \<Longrightarrow>
   sorted_wrt (\<lambda>a b. createdAt b \<le> createdAt a) (insert_cmp byDate x xs)"
  by (induction xs) (auto simp: set_insert_cmp byDate_def)

lemma newest_first_sort: "sorted_wrt (\<lambda>a b. createdAt b \<le> createdAt a) (sort_cmp byDate xs)"
  by (induction xs) (simp_all add: newest_first_insert)

lemma getAllPosts_sorted: "sorted_wrt (\<lambda>a b. createdAt b \<le> createdAt a) (getAllPosts d)"
  by (simp add: getAllPosts_def newest_first_sort split: sum.splits)

subsection \<open>What the listing holds\<close>

lemma getAllPosts_readable:
  assumes "\<forall>f \<in> set (jsonFiles es). parsed es f \<noteq> None"
  shows "getAllPosts (Dir es) =
           sort_cmp byDate
             (map (\<lambda>f. withFilename (the (parsed es f)) (replace ''.json'' '''' f)) (jsonFiles es))"
proof -
  from assms have "\<forall>r \<in> set (map (loadPost (Dir es)) (jsonFiles es)). \<not> isl r"
    by (auto simp: loadPost_isl)
  then have "promise_all (map (loadPost (Dir es)) (jsonFiles es))
      = Inr (map projr (map (loadPost (Dir es)) (jsonFiles es)))"
    by (rule promise_all_fulfils)
  also have "map projr (map (loadPost (Dir es)) (jsonFiles es))
      = map (\<lambda>f. withFilename (the (parsed es f)) (replace ''.json'' '''' f)) (jsonFiles es)"
    using assms by (auto simp: loadPost_projr)
  finally show ?thesis
    by (simp add: getAllPosts_Dir)
qed

lemma getAllPosts_broken:
  assumes "\<exists>f \<in> set (jsonFiles es). parsed es f = None"
  shows "getAllPosts (Dir es) = []"
proof -
  from assms have "\<exists>r \<in> set (map (loadPost (Dir es)) (jsonFiles es)). isl r"
    by (auto simp: loadPost_isl)
  then obtain e where "promise_all (map (loadPost (Dir es)) (jsonFiles es)) = Inl e"
    using promise_all_rejects by blast
  then show ?thesis
    by (simp add: getAllPosts_Dir)
qed

text \<open>
  C1 (as amended). \<^verbatim>\<open>getAllPosts\<close> has one \<^verbatim>\<open>try\<close> around the whole listing and
  awaits the files through \<^verbatim>\<open>Promise.all\<close>, so it is all or nothing: it returns the
  empty sequence when the directory is missing or unreadable, and also when any one
  \<^verbatim>\<open>.json\<close> file fails to read or parse; when every \<^verbatim>\<open>.json\<close> file is readable and
  well-formed it returns the post parsed from each of them, with its handle, sorted.
  Entries not named \<^verbatim>\<open>*.json\<close> are never read.
\<close>

theorem getAllPosts_all_or_nothing:
  "getAllPosts NoDir = []
   \<and> ((\<exists>f \<in> set (jsonFiles es). parsed es f = None) \<longrightarrow> getAllPosts (Dir es) = [])
   \<and> ((\<forall>f \<in> set (jsonFiles es). parsed es f \<noteq> None) \<longrightarrow>
        getAllPosts (Dir es) =
          sort_cmp byDate
            (map (\<lambda>f. withFilename (the (parsed es f)) (replace ''.json'' '''' f)) (jsonFiles es)))"
proof (intro conjI impI)
  show "getAllPosts NoDir = []"
    by (simp add: getAllPosts_def readdir_def)
next
  assume "\<exists>f \<in> set (jsonFiles es). parsed es f = None"
  then show "getAllPosts (Dir es) = []"
    by (rule getAllPosts_broken)
next
  assume "\<forall>f \<in> set (jsonFiles es). parsed es f \<noteq> None"
  then show "getAllPosts (Dir es) =
      sort_cmp byDate
        (map (\<lambda>f. withFilename (the (parsed es f)) (replace ''.json'' '''' f)) (jsonFiles es))"
    by (rule getAllPosts_readable)
qed

text \<open>The four posts of the example directory are all listed, newest first; the
  subdirectory is ignored.\<close>

theorem getAllPosts_all_or_nothing_witness:
  "getAllPosts (Dir es_blog) =
     [withFilename post_d ''other-3d4e5f6a'', withFilename post_b ''notes-1b2c3d4e'',
      withFilename post_c ''tips-2c3d4e5f'', withFilename post_a ''hello-world-0a1b2c3d'']"
proof -
  have "\<forall>f \<in> set (jsonFiles es_blog). parsed es_blog f \<noteq> None"
    by code_simp
  with getAllPosts_all_or_nothing [of es_blog]
  have "getAllPosts (Dir es_blog) =
      sort_cmp byDate
        (map (\<lambda>f. withFilename (the (parsed es_blog f)) (replace ''.json'' '''' f))
          (jsonFiles es_blog))"
    by blast
  also have "\<dots> =
     [withFilename post_d ''other-3d4e5f6a'', withFilename post_b ''notes-1b2c3d4e'',
      withFilename post_c ''tips-2c3d4e5f'', withFilename post_a ''hello-world-0a1b2c3d'']"
    by code_simp
  finally show ?thesis .
qed

text \<open>
  C1 as stated fails: with one well-formed post file and one file that is not JSON,
  the well-formed post can be fetched by its handle, yet the listing is empty
  instead of holding that post.
\<close>

theorem getAllPosts_partial_counterexample:
  "getPostByFilename (Dir es_partial) ''hello-world-0a1b2c3d''
     = Some (withFilename post_a ''hello-world-0a1b2c3d'')
   \<and> getPostByFilename (Dir es_partial) ''broken'' = None
   \<and> getAllPosts (Dir es_partial) \<noteq> [withFilename post_a ''hello-world-0a1b2c3d'']
   \<and> getAllPosts (Dir es_partial) = []"
  by code_simp

subsection \<open>deletePost\<close>










subsection \<open>File names and handles\<close>

lemma withFilename_sel [simp]:
  "post_id (withFilename s n) = post_id s"
  "title (withFilename s n) = title s"
  "content (withFilename s n) = content s"
  "author (withFilename s n) = author s"
  "tags (withFilename s n) = tags s"
  "createdAt (withFilename s n) = createdAt s"
  "updatedAt (withFilename s n) = updatedAt s"
  "filename (withFilename s n) = n"
  by (simp_all add: withFilename_def stored_post.defs)

lemma replace_extension:
  "CHR ''.'' \<notin> set xs \<Longrightarrow> replace ''.json'' '''' (xs @ ''.json'') = xs"
  by (induction xs) auto

lemma no_dot_in_caseTable: "CHR ''.'' \<notin> set (map snd caseTable)"
  by code_simp

lemma toLowerChar_dot:
  assumes "toLowerChar c = CHR ''.''"
  shows "c = CHR ''.''"
proof (cases "map_of caseTable c")
  case None
  with assms show ?thesis by (simp add: toLowerChar_def)
next
  case (Some l)
  with assms have "l = CHR ''.''"
    by (simp add: toLowerChar_def)
  with Some have "(c, CHR ''.'') \<in> set caseTable"
    by (simp add: map_of_SomeD)
  then have "CHR ''.'' \<in> set (map snd caseTable)"
    by force
  with no_dot_in_caseTable show ?thesis by blast
qed

lemma lowerFrom_set:
  "c \<in> set (lowerFrom b s) \<Longrightarrow> c = CHR 0xC2 \<or> (\<exists>x \<in> set s. c = toLowerChar x)"
  by (induction s arbitrary: b) (auto split: if_splits)

lemma set_trim: "set (trim xs) \<subseteq> set xs"
proof -
  have "set (trim xs) = set (dropWhile isSpace (rev (dropWhile isSpace xs)))"
    by (simp add: trim_def)
  also have "\<dots> \<subseteq> set (rev (dropWhile isSpace xs))"
    by (rule set_dropWhileD [THEN subsetI])
  also have "\<dots> \<subseteq> set xs"
    using set_dropWhileD [of _ isSpace xs] by auto
  finally show ?thesis .
qed

lemma set_collapseSpaces: "set (collapseSpaces xs) \<subseteq> insert CHR ''-'' (set xs)"
  by (induction xs rule: collapseSpaces.induct) auto

lemma slugify_no_dot: "CHR ''.'' \<notin> set (slugify s)"
proof
  assume "CHR ''.'' \<in> set (slugify s)"
  then obtain c where c: "c \<in> set (collapseSpaces (trim
       (filter (\<lambda>c. isAlnum c \<or> isSpace c) (concat (map charMap s)))))" and "toLowerChar c = CHR ''.''"
    using lowerFrom_set [of "CHR ''.''" False]
    by (fastforce simp: slugify_def toLowerCase_def)
  then have "c = CHR ''.''" by (simp add: toLowerChar_dot)
  with c have "CHR ''.'' \<in> set (trim (filter (\<lambda>c. isAlnum c \<or> isSpace c) (concat (map charMap s))))"
    using set_collapseSpaces by fastforce
  then have "CHR ''.'' \<in> set (filter (\<lambda>c. isAlnum c \<or> isSpace c) (concat (map charMap s)))"
    using set_trim by blast
  then have "isAlnum CHR ''.'' \<or> isSpace CHR ''.''" by simp
  then show False by (simp add: isAlnum_def isSpace_def)
qed

lemma uuid_chars:
  assumes "is_uuid u"
  shows "list_all (\<lambda>c. c \<in> set ''0123456789abcdef-'') u"
  using assms unfolding is_uuid_def by (rule conjunct2)

lemma uuid_no_dot:
  assumes "is_uuid u"
  shows "CHR ''.'' \<notin> set (take n u)"
proof
  assume "CHR ''.'' \<in> set (take n u)"
  then have m: "CHR ''.'' \<in> set u" by (rule in_set_takeD)
  have "\<forall>c \<in> set u. c \<in> set ''0123456789abcdef-''"
    using uuid_chars [OF assms] by (simp only: list_all_iff)
  with m have "CHR ''.'' \<in> set ''0123456789abcdef-''" by blast
  then show False by simp
qed

lemma handle_of_generateFilename:
  "is_uuid u \<Longrightarrow>
   replace ''.json'' '''' (generateFilename u t) = slugify t @ ''-'' @ take 8 u"
proof -
  assume "is_uuid u"
  then have "CHR ''.'' \<notin> set (slugify t @ ''-'' @ take 8 u)"
    by (simp add: slugify_no_dot uuid_no_dot)
  then have "replace ''.json'' '''' ((slugify t @ ''-'' @ take 8 u) @ ''.json'') = slugify t @ ''-'' @ take 8 u"
    by (rule replace_extension)
  then show ?thesis by (simp add: generateFilename_def)
qed

lemma createPost_Dir:
  assumes "pd_title pd = Some t" and "pd_content pd = Some c"
  shows "createPost env (Dir es) pd =
           Inr (withFilename (newPost env t c pd)
                  (replace ''.json'' '''' (generateFilename (file_uuid env) t)),
                Dir (put (generateFilename (file_uuid env) t)
                       (Readable (Json (newPost env t c pd))) es))"
  using assms by (simp add: createPost_def writeFile_def JSON_stringify_def Let_def)

lemma createPost_NoDir: "isl (createPost env NoDir pd)"
  by (simp add: createPost_def writeFile_def Let_def split: option.splits)

lemma createPost_absent:
  "pd_title pd = None \<or> pd_content pd = None \<Longrightarrow> createPost env d pd = Inl TypeError"
  by (auto simp: createPost_def split: option.splits)

lemma getPostByFilename_put:
  "getPostByFilename (Dir (put (n @ ''.json'') (Readable (Json s)) es)) n = Some (withFilename s n)"
  by (simp add: getPostByFilename_def readFile_def JSON_parse_def map_of_put_same)

subsection \<open>createPost\<close>

text \<open>
  C3. For post data with a title and a content, \<^verbatim>\<open>createPost\<close> in an existing
  directory returns a post, and \<^verbatim>\<open>getPostByFilename\<close> on the handle of that post,
  in the directory \<^verbatim>\<open>createPost\<close> leaves behind, yields the very same post, equal
  in every field. The identifier \<^verbatim>\<open>uuidv4()\<close> supplies for the file name is a uuid.
\<close>

theorem create_then_get:
  assumes "pd_title pd = Some t" and "pd_content pd = Some c" and "is_uuid (file_uuid env)"
  shows "\<exists>p d'. createPost env (Dir es) pd = Inr (p, d')
               \<and> getPostByFilename d' (filename p) = Some p"
proof -
  let ?h = "slugify t @ ''-'' @ take 8 (file_uuid env)"
  let ?s = "newPost env t c pd"
  have h: "replace ''.json'' '''' (generateFilename (file_uuid env) t) = ?h"
    using assms(3) by (rule handle_of_generateFilename)
  have f: "generateFilename (file_uuid env) t = ?h @ ''.json''"
    by (simp add: generateFilename_def)
  have "createPost env (Dir es) pd =
      Inr (withFilename ?s (replace ''.json'' '''' (generateFilename (file_uuid env) t)),
           Dir (put (generateFilename (file_uuid env) t) (Readable (Json ?s)) es))"
    using assms(1,2) by (rule createPost_Dir)
  then have cr: "createPost env (Dir es) pd =
      Inr (withFilename ?s ?h, Dir (put (?h @ ''.json'') (Readable (Json ?s)) es))"
    by (simp only: h) (simp only: f)
  have "getPostByFilename (Dir (put (?h @ ''.json'') (Readable (Json ?s)) es))
          (filename (withFilename ?s ?h)) = Some (withFilename ?s ?h)"
    by (simp only: withFilename_sel getPostByFilename_put)
  with cr show ?thesis by blast
qed

theorem create_then_get_witness:
  "getPostByFilename (snd (projr (createPost env_first (Dir es_blog) pd_first)))
     (filename (fst (projr (createPost env_first (Dir es_blog) pd_first))))
   = Some (fst (projr (createPost env_first (Dir es_blog) pd_first)))"
proof -
  have t: "pd_title pd_first = Some ''My First Post''"
    and c: "pd_content pd_first = Some ''Hello there''"
    by (simp_all add: pd_first_def)
  have u: "is_uuid (file_uuid env_first)"
    by code_simp
  from create_then_get [OF t c u, of es_blog]
  obtain p d' where "createPost env_first (Dir es_blog) pd_first = Inr (p, d')"
    and "getPostByFilename d' (filename p) = Some p"
    by blast
  then show ?thesis by simp
qed

lemma replace_skips:
  "CHR ''.'' \<notin> set xs \<Longrightarrow> replace ''.json'' '''' (xs @ ys) = xs @ replace ''.json'' '''' ys"
  by (induction xs) auto

lemma uuid_not_empty:
  assumes "is_uuid u"
  shows "u \<noteq> []"
proof
  assume "u = []"
  with assms have "is_uuid []" by simp
  then show False by (simp add: is_uuid_def)
qed

lemma slugify_first_post: "slugify ''My First Post'' = ''my-first-post''"
  by code_simp

lemma newPost_sel [simp]:
  "post_id (newPost env t c pd) = id_uuid env"
  "title (newPost env t c pd) = trim t"
  "content (newPost env t c pd) = trim c"
  "author (newPost env t c pd) = ifTruthy (pd_author pd) trim ''Anonymous''"
  "tags (newPost env t c pd) = ifTruthy (pd_tags pd) splitTags []"
  "createdAt (newPost env t c pd) = created_now env"
  "updatedAt (newPost env t c pd) = updated_now env"
  by (simp_all add: newPost_def)

text \<open>
  C7. Creating a post with title \<^verbatim>\<open>My First Post\<close>, content \<^verbatim>\<open>Hello there\<close>, no author
  and no tags yields a post whose author is \<^verbatim>\<open>Anonymous\<close>, whose tags are the empty
  sequence, whose id is not empty and whose handle begins with \<^verbatim>\<open>my-first-post-\<close>,
  whatever the directory holds and whatever the clock and the file's identifier are.
\<close>

theorem createPost_first_post:
  assumes "is_uuid (id_uuid env)"
  shows "\<exists>p d'. createPost env (Dir es) pd_first = Inr (p, d')
               \<and> author p = ''Anonymous'' \<and> tags p = [] \<and> post_id p \<noteq> []
               \<and> prefix ''my-first-post-'' (filename p)"
proof -
  let ?t = "''My First Post''"
  let ?f = "generateFilename (file_uuid env) ?t"
  let ?s = "newPost env ?t ''Hello there'' pd_first"
  have cr: "createPost env (Dir es) pd_first =
      Inr (withFilename ?s (replace ''.json'' '''' ?f), Dir (put ?f (Readable (Json ?s)) es))"
    by (rule createPost_Dir) (simp_all add: pd_first_def)
  have f: "?f = ''my-first-post-'' @ (take 8 (file_uuid env) @ ''.json'')"
    by (simp add: generateFilename_def slugify_first_post)
  have "CHR ''.'' \<notin> set ''my-first-post-''"
    by simp
  then have "replace ''.json'' '''' (''my-first-post-'' @ (take 8 (file_uuid env) @ ''.json'')) =
      ''my-first-post-'' @ replace ''.json'' '''' (take 8 (file_uuid env) @ ''.json'')"
    by (rule replace_skips)
  then have pre: "prefix ''my-first-post-'' (replace ''.json'' '''' ?f)"
    unfolding f by (rule prefixI)
  show ?thesis
  proof (intro exI conjI)
    show "createPost env (Dir es) pd_first =
        Inr (withFilename ?s (replace ''.json'' '''' ?f), Dir (put ?f (Readable (Json ?s)) es))"
      by (rule cr)
    show "author (withFilename ?s (replace ''.json'' '''' ?f)) = ''Anonymous''"
      by (simp add: pd_first_def ifTruthy_def)
    show "tags (withFilename ?s (replace ''.json'' '''' ?f)) = []"
      by (simp add: pd_first_def ifTruthy_def)
    show "post_id (withFilename ?s (replace ''.json'' '''' ?f)) \<noteq> []"
      using assms by (simp add: uuid_not_empty)
    show "prefix ''my-first-post-'' (filename (withFilename ?s (replace ''.json'' '''' ?f)))"
      using pre by (simp only: withFilename_sel)
  qed
qed

theorem createPost_first_post_witness:
  "author (fst (projr (createPost env_first (Dir es_blog) pd_first))) = ''Anonymous''
   \<and> tags (fst (projr (createPost env_first (Dir es_blog) pd_first))) = []
   \<and> post_id (fst (projr (createPost env_first (Dir es_blog) pd_first))) \<noteq> []
   \<and> filename (fst (projr (createPost env_first (Dir es_blog) pd_first))) = ''my-first-post-1c9e6679''"
proof -
  have "is_uuid (id_uuid env_first)"
    by code_simp
  from createPost_first_post [OF this, of es_blog]
  obtain p d' where "createPost env_first (Dir es_blog) pd_first = Inr (p, d')"
    and "author p = ''Anonymous''" and "tags p = []" and "post_id p \<noteq> []"
    by blast
  moreover have "filename (fst (projr (createPost env_first (Dir es_blog) pd_first)))
      = ''my-first-post-1c9e6679''"
    by code_simp
  ultimately show ?thesis by simp
qed

text \<open>
  C9. When the title or the content is absent, \<^verbatim>\<open>createPost\<close> throws (the promise
  rejects with a TypeError): it returns neither a post nor a not-found value. When both
  are present the calls of \<^verbatim>\<open>trim\<close> cannot fail: the result is never a TypeError, and
  in an existing directory it is a post.
\<close>

theorem createPost_needs_title_and_content:
  "(pd_title pd = None \<or> pd_content pd = None \<longrightarrow> createPost env d pd = Inl TypeError)
   \<and> (pd_title pd \<noteq> None \<and> pd_content pd \<noteq> None \<longrightarrow>
        createPost env d pd \<noteq> Inl TypeError
        \<and> (d \<noteq> NoDir \<longrightarrow> \<not> isl (createPost env d pd)))"
proof (intro conjI impI)
  assume "pd_title pd = None \<or> pd_content pd = None"
  then show "createPost env d pd = Inl TypeError"
    by (rule createPost_absent)
next
  assume "pd_title pd \<noteq> None \<and> pd_content pd \<noteq> None"
  then show "createPost env d pd \<noteq> Inl TypeError"
    by (cases d) (auto simp: createPost_def writeFile_def Let_def)
next
  assume "pd_title pd \<noteq> None \<and> pd_content pd \<noteq> None" and "d \<noteq> NoDir"
  then show "\<not> isl (createPost env d pd)"
    by (cases d) (auto simp: createPost_def writeFile_def Let_def)
qed

theorem createPost_needs_title_and_content_witness:
  "createPost env_first (Dir es_blog) (pd_first\<lparr>pd_title := None\<rparr>) = Inl TypeError
   \<and> createPost env_first (Dir es_blog) (pd_first\<lparr>pd_content := None\<rparr>) = Inl TypeError
   \<and> \<not> isl (createPost env_first (Dir es_blog) pd_first)
   \<and> createPost env_first NoDir pd_first = Inl IOError"
proof -
  have a: "pd_title (pd_first\<lparr>pd_title := None\<rparr>) = None"
    and b: "pd_content (pd_first\<lparr>pd_content := None\<rparr>) = None"
    and c: "pd_title pd_first \<noteq> None \<and> pd_content pd_first \<noteq> None"
    by (simp_all add: pd_first_def)
  from a createPost_needs_title_and_content [of "pd_first\<lparr>pd_title := None\<rparr>" env_first "Dir es_blog"]
  have "createPost env_first (Dir es_blog) (pd_first\<lparr>pd_title := None\<rparr>) = Inl TypeError"
    by blast
  moreover from b createPost_needs_title_and_content [of "pd_first\<lparr>pd_content := None\<rparr>" env_first "Dir es_blog"]
  have "createPost env_first (Dir es_blog) (pd_first\<lparr>pd_content := None\<rparr>) = Inl TypeError"
    by blast
  moreover from c createPost_needs_title_and_content [of pd_first env_first "Dir es_blog"]
  have "\<not> isl (createPost env_first (Dir es_blog) pd_first)"
    by blast
  moreover have "createPost env_first NoDir pd_first = Inl IOError"
    by code_simp
  ultimately show ?thesis by blast
qed

lemma getPostByFilename_found:
  assumes "getPostByFilename d n = Some old"
  shows "\<exists>es s. d = Dir es \<and> map_of es (n @ ''.json'') = Some (Readable (Json s))
               \<and> old = withFilename s n"
proof (cases d)
  case NoDir
  with assms show ?thesis by (simp add: getPostByFilename_def readFile_def)
next
  case (Dir es)
  with assms obtain s where "map_of es (n @ ''.json'') = Some (Readable (Json s))"
    and "old = withFilename s n"
    by (auto simp: getPostByFilename_def readFile_def JSON_parse_def
        split: option.splits entry.splits contents.splits)
  with Dir show ?thesis by blast
qed

lemma updatePost_existing:
  assumes "map_of es (n @ ''.json'') = Some (Readable (Json s))"
  shows "updatePost now (Dir es) n pd =
           (Some (withFilename (mergedPost now s pd) n),
            Dir (put (n @ ''.json'') (Readable (Json (mergedPost now s pd))) es))"
  using assms
  by (simp add: updatePost_def readFile_def JSON_parse_def writeFile_def JSON_stringify_def Let_def)

lemma mergedPost_sel [simp]:
  "post_id (mergedPost now s pd) = post_id s"
  "title (mergedPost now s pd) = ifTruthy (pd_title pd) trim (title s)"
  "content (mergedPost now s pd) = ifTruthy (pd_content pd) trim (content s)"
  "author (mergedPost now s pd) = ifTruthy (pd_author pd) trim (author s)"
  "tags (mergedPost now s pd) = ifTruthy (pd_tags pd) splitTags (tags s)"
  "createdAt (mergedPost now s pd) = createdAt s"
  "updatedAt (mergedPost now s pd) = now"
  by (simp_all add: mergedPost_def)

lemma getPostByFilename_put_other:
  "other \<noteq> n \<Longrightarrow>
   getPostByFilename (Dir (put (n @ ''.json'') e es)) other = getPostByFilename (Dir es) other"
  by (simp add: getPostByFilename_def readFile_def map_of_put_other)

text \<open>What an update of an existing post returns and leaves behind.\<close>

lemma updatePost_of_existing:
  assumes "getPostByFilename d name = Some old"
  shows "\<exists>s es. old = withFilename s name \<and> d = Dir es
          \<and> updatePost now d name pd =
               (Some (withFilename (mergedPost now s pd) name),
                Dir (put (name @ ''.json'') (Readable (Json (mergedPost now s pd))) es))"
proof -
  from getPostByFilename_found [OF assms] obtain es s where
    d: "d = Dir es" and m: "map_of es (name @ ''.json'') = Some (Readable (Json s))"
    and old: "old = withFilename s name"
    by blast
  from updatePost_existing [OF m] d old show ?thesis by blast
qed

subsection \<open>updatePost\<close>

text \<open>
  C2 (as amended). For an existing post, \<^verbatim>\<open>updatePost\<close> returns a post in which every
  field provided as a non-empty string is replaced by the trimmed value (the tags by
  the trimmed, non-empty tokens between the commas), every field that is omitted or
  empty keeps its old value, and id, \<^verbatim>\<open>createdAt\<close> and filename are unchanged;
  \<^verbatim>\<open>updatedAt\<close> is the clock reading of the update, hence strictly greater than the
  old one whenever that reading is later than the old \<^verbatim>\<open>updatedAt\<close>. A following
  \<^verbatim>\<open>getPostByFilename\<close> on the handle returns exactly this post, and every other
  handle reads as before.
\<close>

theorem updatePost_merges:
  assumes "getPostByFilename d name = Some old"
  shows "\<exists>new d'. updatePost now d name pd = (Some new, d')
     \<and> (\<forall>v. pd_title pd = Some v \<and> v \<noteq> [] \<longrightarrow> title new = trim v)
     \<and> (pd_title pd = None \<or> pd_title pd = Some [] \<longrightarrow> title new = title old)
     \<and> (\<forall>v. pd_content pd = Some v \<and> v \<noteq> [] \<longrightarrow> content new = trim v)
     \<and> (pd_content pd = None \<or> pd_content pd = Some [] \<longrightarrow> content new = content old)
     \<and> (\<forall>v. pd_author pd = Some v \<and> v \<noteq> [] \<longrightarrow> author new = trim v)
     \<and> (pd_author pd = None \<or> pd_author pd = Some [] \<longrightarrow> author new = author old)
     \<and> (\<forall>v. pd_tags pd = Some v \<and> v \<noteq> [] \<longrightarrow> tags new = splitTags v)
     \<and> (pd_tags pd = None \<or> pd_tags pd = Some [] \<longrightarrow> tags new = tags old)
     \<and> post_id new = post_id old \<and> createdAt new = createdAt old
     \<and> filename new = filename old
     \<and> updatedAt new = now
     \<and> (updatedAt old < now \<longrightarrow> updatedAt old < updatedAt new)
     \<and> getPostByFilename d' name = Some new
     \<and> (\<forall>other. other \<noteq> name \<longrightarrow> getPostByFilename d' other = getPostByFilename d other)"
proof -
  from updatePost_of_existing [OF assms, of now pd] obtain s es where
    old: "old = withFilename s name" and d: "d = Dir es" and
    up: "updatePost now d name pd =
           (Some (withFilename (mergedPost now s pd) name),
            Dir (put (name @ ''.json'') (Readable (Json (mergedPost now s pd))) es))"
    by blast
  let ?new = "withFilename (mergedPost now s pd) name"
  let ?d' = "Dir (put (name @ ''.json'') (Readable (Json (mergedPost now s pd))) es)"
  have fields:
    "(\<forall>v. pd_title pd = Some v \<and> v \<noteq> [] \<longrightarrow> title ?new = trim v)"
    "(pd_title pd = None \<or> pd_title pd = Some [] \<longrightarrow> title ?new = title old)"
    "(\<forall>v. pd_content pd = Some v \<and> v \<noteq> [] \<longrightarrow> content ?new = trim v)"
    "(pd_content pd = None \<or> pd_content pd = Some [] \<longrightarrow> content ?new = content old)"
    "(\<forall>v. pd_author pd = Some v \<and> v \<noteq> [] \<longrightarrow> author ?new = trim v)"
    "(pd_author pd = None \<or> pd_author pd = Some [] \<longrightarrow> author ?new = author old)"
    "(\<forall>v. pd_tags pd = Some v \<and> v \<noteq> [] \<longrightarrow> tags ?new = splitTags v)"
    "(pd_tags pd = None \<or> pd_tags pd = Some [] \<longrightarrow> tags ?new = tags old)"
    by (auto simp: old ifTruthy_def)
  have kept: "post_id ?new = post_id old" "createdAt ?new = createdAt old"
    "filename ?new = filename old" "updatedAt ?new = now"
    "updatedAt old < now \<longrightarrow> updatedAt old < updatedAt ?new"
    by (simp_all add: old)
  have stored: "getPostByFilename ?d' name = Some ?new"
    by (rule getPostByFilename_put)
  have frame: "\<forall>other. other \<noteq> name \<longrightarrow> getPostByFilename ?d' other = getPostByFilename d other"
    by (simp add: d getPostByFilename_put_other)
  show ?thesis
    by (intro exI [of _ ?new] exI [of _ ?d'] conjI up fields kept stored frame)
qed

theorem updatePost_merges_witness:
  "map_option title (fst (updatePost 9000 (Dir es_blog) ''notes-1b2c3d4e'' pd_retitle))
     = Some ''Notes v2''
   \<and> map_option content (fst (updatePost 9000 (Dir es_blog) ''notes-1b2c3d4e'' pd_retitle))
     = Some ''I say hello''
   \<and> map_option updatedAt (fst (updatePost 9000 (Dir es_blog) ''notes-1b2c3d4e'' pd_retitle))
     = Some 9000
   \<and> getPostByFilename (snd (updatePost 9000 (Dir es_blog) ''notes-1b2c3d4e'' pd_retitle))
        ''notes-1b2c3d4e''
     = fst (updatePost 9000 (Dir es_blog) ''notes-1b2c3d4e'' pd_retitle)"
proof -
  let ?h = "''notes-1b2c3d4e''"
  have g: "getPostByFilename (Dir es_blog) ?h = Some (withFilename post_b ?h)"
    by code_simp
  from updatePost_merges [OF g, of 9000 pd_retitle] obtain new d' where
    up: "updatePost 9000 (Dir es_blog) ?h pd_retitle = (Some new, d')" and
    t: "\<forall>v. pd_title pd_retitle = Some v \<and> v \<noteq> [] \<longrightarrow> title new = trim v" and
    c: "pd_content pd_retitle = None \<or> pd_content pd_retitle = Some [] \<longrightarrow>
          content new = content (withFilename post_b ?h)" and
    u: "updatedAt new = 9000" and
    g': "getPostByFilename d' ?h = Some new"
    by (elim exE conjE)
  from t have "title new = trim ''  Notes v2  ''"
    by (simp add: pd_retitle_def)
  also have "\<dots> = ''Notes v2''"
    by code_simp
  finally have t': "title new = ''Notes v2''" .
  from c have "content new = content (withFilename post_b ?h)"
    by (simp add: pd_retitle_def)
  also have "\<dots> = ''I say hello''"
    by code_simp
  finally have c': "content new = ''I say hello''" .
  from up t' c' u g' show ?thesis by simp
qed

text \<open>
  C2 as stated fails. The post \<^verbatim>\<open>notes-1b2c3d4e\<close> was last updated at instant 3500; an
  update that reads the clock at that same instant, with a title padded by blanks and
  an empty content, returns a post whose \<^verbatim>\<open>updatedAt\<close> is not greater than
  before, whose title is not the provided value (it is trimmed) and whose content is
  not the provided value (the empty string counts as omitted).
\<close>

theorem updatePost_as_stated_counterexample:
  "getPostByFilename (Dir es_blog) ''notes-1b2c3d4e'' = Some (withFilename post_b ''notes-1b2c3d4e'')
   \<and> fst (updatePost 3500 (Dir es_blog) ''notes-1b2c3d4e'' pd_retitle) \<noteq> None
   \<and> \<not> updatedAt (withFilename post_b ''notes-1b2c3d4e'')
         < updatedAt (the (fst (updatePost 3500 (Dir es_blog) ''notes-1b2c3d4e'' pd_retitle)))
   \<and> pd_title pd_retitle
         \<noteq> Some (title (the (fst (updatePost 3500 (Dir es_blog) ''notes-1b2c3d4e'' pd_retitle))))
   \<and> pd_content pd_retitle
         \<noteq> Some (content (the (fst (updatePost 3500 (Dir es_blog) ''notes-1b2c3d4e'' pd_retitle))))"
  by code_simp

lemma mergedPost_empty_title:
  "mergedPost now s (pd\<lparr>pd_title := Some []\<rparr>) = mergedPost now s (pd\<lparr>pd_title := None\<rparr>)"
  by (simp add: mergedPost_def ifTruthy_def)

lemma mergedPost_empty_content:
  "mergedPost now s (pd\<lparr>pd_content := Some []\<rparr>) = mergedPost now s (pd\<lparr>pd_content := None\<rparr>)"
  by (simp add: mergedPost_def ifTruthy_def)

lemma mergedPost_empty_author:
  "mergedPost now s (pd\<lparr>pd_author := Some []\<rparr>) = mergedPost now s (pd\<lparr>pd_author := None\<rparr>)"
  by (simp add: mergedPost_def ifTruthy_def)

lemma mergedPost_empty_tags:
  "mergedPost now s (pd\<lparr>pd_tags := Some []\<rparr>) = mergedPost now s (pd\<lparr>pd_tags := None\<rparr>)"
  by (simp add: mergedPost_def ifTruthy_def)

lemma updatePost_cong:
  "(\<And>s. mergedPost now s pd = mergedPost now s pd') \<Longrightarrow>
   updatePost now d name pd = updatePost now d name pd'"
  by (simp add: updatePost_def split: sum.splits)

text \<open>
  C10 (as amended). An update with the empty string for title, content, author or
  tags does what the same update with that field omitted does, and leaves that field
  of an existing post at its previous value. The tags of a post are cleared by an
  update only when the tags field is a non-empty string that holds no token (commas
  and blanks only).
\<close>

theorem updatePost_empty_is_omitted:
  "updatePost now d name (pd\<lparr>pd_title := Some []\<rparr>) = updatePost now d name (pd\<lparr>pd_title := None\<rparr>)
   \<and> updatePost now d name (pd\<lparr>pd_content := Some []\<rparr>)
       = updatePost now d name (pd\<lparr>pd_content := None\<rparr>)
   \<and> updatePost now d name (pd\<lparr>pd_author := Some []\<rparr>)
       = updatePost now d name (pd\<lparr>pd_author := None\<rparr>)
   \<and> updatePost now d name (pd\<lparr>pd_tags := Some []\<rparr>) = updatePost now d name (pd\<lparr>pd_tags := None\<rparr>)
   \<and> (getPostByFilename d name = Some old \<and> updatePost now d name pd = (Some new, d') \<longrightarrow>
         (pd_title pd = Some [] \<longrightarrow> title new = title old)
       \<and> (pd_content pd = Some [] \<longrightarrow> content new = content old)
       \<and> (pd_author pd = Some [] \<longrightarrow> author new = author old)
       \<and> (pd_tags pd = Some [] \<longrightarrow> tags new = tags old)
       \<and> (tags old \<noteq> [] \<and> tags new = [] \<longrightarrow>
            (\<exists>v. pd_tags pd = Some v \<and> v \<noteq> [] \<and> splitTags v = [])))"
proof (intro conjI impI)
  show "updatePost now d name (pd\<lparr>pd_title := Some []\<rparr>) = updatePost now d name (pd\<lparr>pd_title := None\<rparr>)"
    by (rule updatePost_cong) (rule mergedPost_empty_title)
  show "updatePost now d name (pd\<lparr>pd_content := Some []\<rparr>)
       = updatePost now d name (pd\<lparr>pd_content := None\<rparr>)"
    by (rule updatePost_cong) (rule mergedPost_empty_content)
  show "updatePost now d name (pd\<lparr>pd_author := Some []\<rparr>)
       = updatePost now d name (pd\<lparr>pd_author := None\<rparr>)"
    by (rule updatePost_cong) (rule mergedPost_empty_author)
  show "updatePost now d name (pd\<lparr>pd_tags := Some []\<rparr>) = updatePost now d name (pd\<lparr>pd_tags := None\<rparr>)"
    by (rule updatePost_cong) (rule mergedPost_empty_tags)
next
  assume a: "getPostByFilename d name = Some old \<and> updatePost now d name pd = (Some new, d')"
  from updatePost_of_existing [of d name old now pd] a obtain s where
    old: "old = withFilename s name" and new: "new = withFilename (mergedPost now s pd) name"
    by auto
  {
    assume "pd_title pd = Some []"
    then show "title new = title old" by (simp add: old new ifTruthy_def)
  next
    assume "pd_content pd = Some []"
    then show "content new = content old" by (simp add: old new ifTruthy_def)
  next
    assume "pd_author pd = Some []"
    then show "author new = author old" by (simp add: old new ifTruthy_def)
  next
    assume "pd_tags pd = Some []"
    then show "tags new = tags old" by (simp add: old new ifTruthy_def)
  next
    assume "tags old \<noteq> [] \<and> tags new = []"
    then show "\<exists>v. pd_tags pd = Some v \<and> v \<noteq> [] \<and> splitTags v = []"
      by (cases "pd_tags pd") (auto simp: old new ifTruthy_def split: if_splits)
  }
qed

theorem updatePost_empty_is_omitted_witness:
  "updatePost 9000 (Dir es_blog) ''tips-2c3d4e5f'' pd_empty
     = updatePost 9000 (Dir es_blog) ''tips-2c3d4e5f'' (pd_empty\<lparr>pd_tags := None\<rparr>)
   \<and> fst (updatePost 9000 (Dir es_blog) ''tips-2c3d4e5f'' pd_empty)
     = Some (withFilename (post_c\<lparr>updatedAt := 9000\<rparr>) ''tips-2c3d4e5f'')
   \<and> tags (the (fst (updatePost 9000 (Dir es_blog) ''tips-2c3d4e5f'' pd_empty)))
     = [''Hello'', ''go'']"
proof -
  let ?h = "''tips-2c3d4e5f''"
  let ?new = "withFilename (post_c\<lparr>updatedAt := 9000\<rparr>) ?h"
  let ?d' = "snd (updatePost 9000 (Dir es_blog) ?h pd_empty)"
  have e: "pd_empty\<lparr>pd_tags := Some []\<rparr> = pd_empty"
    by (simp add: pd_empty_def)
  have g: "getPostByFilename (Dir es_blog) ?h = Some (withFilename post_c ?h)"
    by code_simp
  have f: "fst (updatePost 9000 (Dir es_blog) ?h pd_empty) = Some ?new"
    by code_simp
  have u: "updatePost 9000 (Dir es_blog) ?h pd_empty = (Some ?new, ?d')"
    unfolding f [symmetric] by simp
  have p: "pd_tags pd_empty = Some []"
    by (simp add: pd_empty_def)
  note inst = updatePost_empty_is_omitted [of 9000 "Dir es_blog" ?h pd_empty
      "withFilename post_c ?h" ?new ?d']
  from inst have "updatePost 9000 (Dir es_blog) ?h (pd_empty\<lparr>pd_tags := Some []\<rparr>)
      = updatePost 9000 (Dir es_blog) ?h (pd_empty\<lparr>pd_tags := None\<rparr>)"
    by blast
  then have same: "updatePost 9000 (Dir es_blog) ?h pd_empty
      = updatePost 9000 (Dir es_blog) ?h (pd_empty\<lparr>pd_tags := None\<rparr>)"
    by (simp only: e)
  from inst g u p have "tags ?new = tags (withFilename post_c ?h)"
    by blast
  then have "tags ?new = [''Hello'', ''go'']"
    by (simp add: post_c_def)
  then have "tags (the (fst (updatePost 9000 (Dir es_blog) ?h pd_empty))) = [''Hello'', ''go'']"
    by (simp only: f option.sel)
  with same f show ?thesis by (intro conjI)
qed

text \<open>
  C10 as stated fails in its last part: the tags of a post can be cleared through
  update. A tags field that holds only a comma is a non-empty string, so it is split,
  and no token is left.
\<close>

theorem updatePost_clears_tags_counterexample:
  "map_option tags (getPostByFilename (Dir es_blog) ''tips-2c3d4e5f'') = Some [''Hello'', ''go'']
   \<and> map_option tags (fst (updatePost 9000 (Dir es_blog) ''tips-2c3d4e5f'' pd_comma)) = Some []"
  by code_simp

subsection \<open>Lower case and case-insensitive matching\<close>












lemma occurs_ci_ex:
  "occurs_ci q s \<longleftrightarrow> (\<exists>i \<le> length s. eq_ci (take (length q) (drop i s)) q)"
proof -
  have "occurs_ci q s
      \<longleftrightarrow> (\<exists>i \<in> {0..<Suc (length s)}. eq_ci (take (length q) (drop i s)) q)"
    by (simp only: occurs_ci_def list_ex_iff set_upt)
  also have "\<dots> \<longleftrightarrow> (\<exists>i \<le> length s. eq_ci (take (length q) (drop i s)) q)"
    by (simp only: Bex_def atLeastLessThan_iff less_Suc_eq_le) simp
  finally show ?thesis .
qed

text \<open>The window definition says what it should: some contiguous part of the text
  equals the query ignoring case.\<close>

lemma occurs_ci_meaning:
  "occurs_ci q s \<longleftrightarrow> (\<exists>before m after. s = before @ m @ after \<and> eq_ci m q)"
proof
  assume "occurs_ci q s"
  then obtain i where "eq_ci (take (length q) (drop i s)) q"
    by (auto simp only: occurs_ci_ex)
  moreover have "s = take i s @ take (length q) (drop i s) @ drop (length q) (drop i s)"
    by (simp only: append_take_drop_id)
  ultimately show "\<exists>before m after. s = before @ m @ after \<and> eq_ci m q"
    by blast
next
  assume "\<exists>before m after. s = before @ m @ after \<and> eq_ci m q"
  then obtain before m after where s: "s = before @ m @ after" and m: "eq_ci m q"
    by blast
  from m have len: "length m = length q"
    by (simp add: eq_ci_def list_all2_lengthD)
  have "length before \<le> length s"
    by (simp add: s)
  moreover have "take (length q) (drop (length before) s) = m"
    by (simp add: s len [symmetric])
  ultimately have "\<exists>i \<le> length s. eq_ci (take (length q) (drop i s)) q"
    using m by blast
  then show "occurs_ci q s"
    by (simp only: occurs_ci_ex)
qed
subsection \<open>searchPosts and getPostsByTag\<close>







subsection \<open>The order of the listing\<close>

lemma createPost_result:
  assumes "createPost env d pd = Inr (p, d')"
  obtains es t c where "d = Dir es" and "pd_title pd = Some t" and "pd_content pd = Some c"
    and "p = withFilename (newPost env t c pd)
               (replace ''.json'' '''' (generateFilename (file_uuid env) t))"
    and "d' = Dir (put (generateFilename (file_uuid env) t)
                     (Readable (Json (newPost env t c pd))) es)"
proof -
  from assms createPost_NoDir [of env pd] obtain es where d: "d = Dir es"
    by (cases d) auto
  from assms createPost_absent [of pd env d] obtain t c where
    t: "pd_title pd = Some t" and c: "pd_content pd = Some c"
    by (cases "pd_title pd"; cases "pd_content pd") auto
  from createPost_Dir [OF t c, of env es] assms d
  have "p = withFilename (newPost env t c pd)
               (replace ''.json'' '''' (generateFilename (file_uuid env) t))"
    and "d' = Dir (put (generateFilename (file_uuid env) t)
                     (Readable (Json (newPost env t c pd))) es)"
    by simp_all
  with d t c show thesis by (rule that)
qed

lemma endsWith_generateFilename: "endsWith (generateFilename u t) ''.json''"
  by (simp add: generateFilename_def endsWith_def)

lemma getAllPosts_three:
  assumes "distinct [f1, f2, f3]"
    and "endsWith f1 ''.json''" and "endsWith f2 ''.json''" and "endsWith f3 ''.json''"
    and "createdAt s1 < createdAt s2" and "createdAt s2 < createdAt s3"
  shows "getAllPosts (Dir [(f1, Readable (Json s1)), (f2, Readable (Json s2)),
                           (f3, Readable (Json s3))])
         = [withFilename s3 (replace ''.json'' '''' f3),
            withFilename s2 (replace ''.json'' '''' f2),
            withFilename s1 (replace ''.json'' '''' f1)]"
  using assms
  by (auto simp: getAllPosts_def readdir_def loadPost_def readFile_def JSON_parse_def byDate_def)

text \<open>
  C4. The listing is ordered by \<^verbatim>\<open>createdAt\<close>, newest first, for every directory; when
  every \<^verbatim>\<open>.json\<close> file is a well-formed post it holds each stored post once. Three
  posts created one after the other in an empty directory, under distinct handles and
  at instants \<open>t1 < t2 < t3\<close>, are listed in the order third, second, first.
\<close>

theorem getAllPosts_newest_first:
  "sorted_wrt (\<lambda>a b. createdAt b \<le> createdAt a) (getAllPosts d)
   \<and> ((\<forall>f \<in> set (jsonFiles es). parsed es f \<noteq> None) \<longrightarrow>
        mset (getAllPosts (Dir es)) =
          mset (map (\<lambda>f. withFilename (the (parsed es f)) (replace ''.json'' '''' f))
                  (jsonFiles es)))
   \<and> (createPost e1 (Dir []) pd1 = Inr (p1, d1)
        \<and> createPost e2 d1 pd2 = Inr (p2, d2)
        \<and> createPost e3 d2 pd3 = Inr (p3, d3)
        \<and> distinct [filename p1, filename p2, filename p3]
        \<and> created_now e1 < created_now e2 \<and> created_now e2 < created_now e3
      \<longrightarrow> getAllPosts d3 = [p3, p2, p1])"
proof (intro conjI impI)
  show "sorted_wrt (\<lambda>a b. createdAt b \<le> createdAt a) (getAllPosts d)"
    by (rule getAllPosts_sorted)
next
  assume "\<forall>f \<in> set (jsonFiles es). parsed es f \<noteq> None"
  then show "mset (getAllPosts (Dir es)) =
      mset (map (\<lambda>f. withFilename (the (parsed es f)) (replace ''.json'' '''' f)) (jsonFiles es))"
    by (simp only: getAllPosts_readable mset_sort_cmp)
next
  assume a: "createPost e1 (Dir []) pd1 = Inr (p1, d1)
        \<and> createPost e2 d1 pd2 = Inr (p2, d2)
        \<and> createPost e3 d2 pd3 = Inr (p3, d3)
        \<and> distinct [filename p1, filename p2, filename p3]
        \<and> created_now e1 < created_now e2 \<and> created_now e2 < created_now e3"
  from a have c1: "createPost e1 (Dir []) pd1 = Inr (p1, d1)" by simp
  from a have c2: "createPost e2 d1 pd2 = Inr (p2, d2)" by simp
  from a have c3: "createPost e3 d2 pd3 = Inr (p3, d3)" by simp
  from a have dist: "filename p1 \<noteq> filename p2" "filename p1 \<noteq> filename p3"
      "filename p2 \<noteq> filename p3"
    by simp_all
  from a have times: "created_now e1 < created_now e2" "created_now e2 < created_now e3"
    by simp_all
  from c1 obtain t1 c1' where
    p1: "p1 = withFilename (newPost e1 t1 c1' pd1)
                (replace ''.json'' '''' (generateFilename (file_uuid e1) t1))" and
    d1: "d1 = Dir (put (generateFilename (file_uuid e1) t1)
                     (Readable (Json (newPost e1 t1 c1' pd1))) [])"
    by (rule createPost_result) simp
  let ?f1 = "generateFilename (file_uuid e1) t1"
  let ?s1 = "newPost e1 t1 c1' pd1"
  from c2 d1 obtain t2 c2' where
    p2: "p2 = withFilename (newPost e2 t2 c2' pd2)
                (replace ''.json'' '''' (generateFilename (file_uuid e2) t2))" and
    d2: "d2 = Dir (put (generateFilename (file_uuid e2) t2)
                     (Readable (Json (newPost e2 t2 c2' pd2))) [(?f1, Readable (Json ?s1))])"
    by (elim createPost_result) simp
  let ?f2 = "generateFilename (file_uuid e2) t2"
  let ?s2 = "newPost e2 t2 c2' pd2"
  from dist(1) p1 p2 have f12: "?f1 \<noteq> ?f2"
    by (auto simp only: withFilename_sel)
  with d2 have d2': "d2 = Dir [(?f1, Readable (Json ?s1)), (?f2, Readable (Json ?s2))]"
    by simp
  from c3 d2' obtain t3 c3' where
    p3: "p3 = withFilename (newPost e3 t3 c3' pd3)
                (replace ''.json'' '''' (generateFilename (file_uuid e3) t3))" and
    d3: "d3 = Dir (put (generateFilename (file_uuid e3) t3)
                     (Readable (Json (newPost e3 t3 c3' pd3)))
                     [(?f1, Readable (Json ?s1)), (?f2, Readable (Json ?s2))])"
    by (elim createPost_result) simp
  let ?f3 = "generateFilename (file_uuid e3) t3"
  let ?s3 = "newPost e3 t3 c3' pd3"
  from dist(2) p1 p3 have f13: "?f1 \<noteq> ?f3"
    by (auto simp only: withFilename_sel)
  from dist(3) p2 p3 have f23: "?f2 \<noteq> ?f3"
    by (auto simp only: withFilename_sel)
  from d3 f13 f23 have d3': "d3 = Dir [(?f1, Readable (Json ?s1)), (?f2, Readable (Json ?s2)),
      (?f3, Readable (Json ?s3))]"
    by simp
  have "getAllPosts (Dir [(?f1, Readable (Json ?s1)), (?f2, Readable (Json ?s2)),
      (?f3, Readable (Json ?s3))])
    = [withFilename ?s3 (replace ''.json'' '''' ?f3),
       withFilename ?s2 (replace ''.json'' '''' ?f2),
       withFilename ?s1 (replace ''.json'' '''' ?f1)]"
  proof (rule getAllPosts_three)
    show "distinct [?f1, ?f2, ?f3]"
      using f12 f13 f23 by simp
    show "createdAt ?s1 < createdAt ?s2" "createdAt ?s2 < createdAt ?s3"
      using times by simp_all
  qed (rule endsWith_generateFilename)+
  then show "getAllPosts d3 = [p3, p2, p1]"
    by (simp only: d3' p1 p2 p3)
qed

theorem getAllPosts_newest_first_witness:
  "getAllPosts (snd step3) = [fst step3, fst step2, fst step1]
   \<and> map createdAt (getAllPosts (snd step3)) = [3000, 2000, 1000]
   \<and> map filename (getAllPosts (snd step3))
       = [''my-first-post-0c0c0c0c'', ''second-0b0b0b0b'', ''my-first-post-0a0a0a0a'']"
proof -
  have c1: "createPost env_t1 (Dir []) pd_first = Inr (fst step1, snd step1)"
    by code_simp
  have c2: "createPost env_t2 (snd step1) pd_second = Inr (fst step2, snd step2)"
    by code_simp
  have c3: "createPost env_t3 (snd step2) pd_first = Inr (fst step3, snd step3)"
    by code_simp
  have dist: "distinct [filename (fst step1), filename (fst step2), filename (fst step3)]"
    by code_simp
  have times: "created_now env_t1 < created_now env_t2 \<and> created_now env_t2 < created_now env_t3"
    by code_simp
  from getAllPosts_newest_first [of "Dir []" "[]" env_t1 pd_first "fst step1" "snd step1"
      env_t2 pd_second "fst step2" "snd step2" env_t3 pd_first "fst step3" "snd step3"]
    c1 c2 c3 dist times
  have listing: "getAllPosts (snd step3) = [fst step3, fst step2, fst step1]"
    by blast
  have "map createdAt [fst step3, fst step2, fst step1] = [3000, 2000, 1000]"
    by code_simp
  moreover have "map filename [fst step3, fst step2, fst step1]
       = [''my-first-post-0c0c0c0c'', ''second-0b0b0b0b'', ''my-first-post-0a0a0a0a'']"
    by code_simp
  ultimately show ?thesis
    by (simp only: listing simp_thms)
qed

end
